theory Spec2Isabelle
  imports Main
begin

section \<open>The JustCMS client for Next.js (src/lib/justCms.ts)\<close>

text \<open>
  A shallow embedding of \<^verbatim>\<open>createJustCmsClient\<close> and of the functions it returns.
  A JavaScript string is a list of code units; the model has the code units below 256
  (the Latin-1 range), one \<^typ>\<open>char\<close> each. A value that may be \<^verbatim>\<open>undefined\<close>
  (an optional parameter, an optional property, an array read) is an \<^typ>\<open>'a option\<close>,
  with \<^term>\<open>None\<close> for \<^verbatim>\<open>undefined\<close>. A \<^verbatim>\<open>number\<close> is an \<^typ>\<open>int\<close>: the
  model has integers only, and prints them as the platform does below \<open>2\<^sup>5\<^sup>3\<close> in
  absolute value.
\<close>

subsection \<open>JavaScript primitives the client uses\<close>

text \<open>
  \<^verbatim>\<open>String.prototype.toLowerCase\<close> on one code unit below 256: the letters A to Z and
  the capital letters of Latin-1 (U+00C0 to U+00DE, without the multiplication sign
  U+00D7) move up by 32; every other code unit stays.
\<close>

definition is_upper :: "char \<Rightarrow> bool" where
  "is_upper c =
     (let n = (of_char c :: nat)
      in (65 \<le> n \<and> n \<le> 90) \<or> (192 \<le> n \<and> n \<le> 222 \<and> n \<noteq> 215))"

definition lower_char :: "char \<Rightarrow> char" where
  "lower_char c = (if is_upper c then char_of ((of_char c :: nat) + 32) else c)"

definition toLowerCase :: "string \<Rightarrow> string" where
  "toLowerCase s = map lower_char s"

text \<open>\<^verbatim>\<open>Array.prototype.includes\<close> on strings: a scan with strict equality.\<close>

primrec js_includes :: "'a list \<Rightarrow> 'a \<Rightarrow> bool" where
  "js_includes [] x = False"
| "js_includes (y # ys) x = (y = x \<or> js_includes ys x)"

text \<open>
  An array read \<^verbatim>\<open>xs[i]\<close>: JavaScript raises nothing out of range, the value read is
  \<^verbatim>\<open>undefined\<close>.
\<close>

definition js_index :: "'a list \<Rightarrow> nat \<Rightarrow> 'a option" where
  "js_index xs i = (if i < length xs then Some (xs ! i) else None)"

text \<open>\<^verbatim>\<open>Array.prototype.join\<close> on an array of strings.\<close>

fun join :: "string \<Rightarrow> string list \<Rightarrow> string" where
  "join sep [] = []"
| "join sep [x] = x"
| "join sep (x # y # ys) = x @ sep @ join sep (y # ys)"

text \<open>
  The truth value of an optional string (\<^verbatim>\<open>if (s)\<close>, \<^verbatim>\<open>!s\<close>): \<^verbatim>\<open>undefined\<close> and the
  empty string are falsy, every other string is truthy. \<^verbatim>\<open>a || b\<close> is \<^verbatim>\<open>a\<close> when
  \<^verbatim>\<open>a\<close> is truthy and \<^verbatim>\<open>b\<close> otherwise.
\<close>

definition truthy :: "string option \<Rightarrow> bool" where
  "truthy s = (case s of None \<Rightarrow> False | Some t \<Rightarrow> t \<noteq> [])"

definition js_or :: "string option \<Rightarrow> string option \<Rightarrow> string option" where
  "js_or a b = (if truthy a then a else b)"

subsection \<open>The data model\<close>

text \<open>
  The interfaces the content helpers read. \<^verbatim>\<open>PageFilters.category\<close> has the anonymous
  type \<^verbatim>\<open>{slug: string}\<close>, of which \<^verbatim>\<open>Category\<close> is the extension by \<^verbatim>\<open>name\<close>.
  \<^verbatim>\<open>isBlockHasStyle\<close> declares its parameter as \<^verbatim>\<open>{styles: string[]}\<close>, and
  \<^verbatim>\<open>hasCategory\<close> reads \<^verbatim>\<open>categories\<close> only of its \<^verbatim>\<open>PageDetail\<close>: the other
  fields of a content block and of a page are the extension part of these records.
\<close>

record SlugRef =
  slug :: string

record Category = SlugRef +
  name :: string

record ImageVariant =
  url :: string
  width :: int
  height :: int
  filename :: string

record Image =
  alt :: string
  variants :: "ImageVariant list"

record Block =
  styles :: "string list"

record 'i ImageBlock =
  images :: "'i list"

record PageDetail =
  categories :: "Category list"

record PageFilters =
  category :: SlugRef

subsection \<open>The content helpers\<close>

definition isBlockHasStyle :: "'a Block_scheme \<Rightarrow> string \<Rightarrow> bool" where
  "isBlockHasStyle block style =
     js_includes (map (\<lambda>s. toLowerCase s) (styles block)) (toLowerCase style)"

definition getLargeImageVariant :: "'a Image_scheme \<Rightarrow> ImageVariant option" where
  "getLargeImageVariant img = js_index (variants img) 1"

definition getFirstImage :: "('i, 'a) ImageBlock_scheme \<Rightarrow> 'i option" where
  "getFirstImage block = js_index (images block) 0"

definition hasCategory :: "'a PageDetail_scheme \<Rightarrow> string \<Rightarrow> bool" where
  "hasCategory page categorySlug =
     js_includes (map (\<lambda>category. slug category) (categories page)) categorySlug"

subsection \<open>Values, errors and the transport\<close>

text \<open>
  A value of type \<^verbatim>\<open>any\<close>: what a query mapping holds and what a JSON body decodes
  to. An object is the list of its entries in iteration order; its keys are distinct.
\<close>

datatype jsval =
    Undefined
  | Null
  | Bool bool
  | Num int
  | Str string
  | Arr "jsval list"
  | Obj "(string \<times> jsval) list"

text \<open>The decimal digits of a natural number, as a template literal prints a number.\<close>

fun decimal :: "nat \<Rightarrow> string" where
  "decimal n =
     (if n < 10 then [char_of (48 + n)]
      else decimal (n div 10) @ [char_of (48 + n mod 10)])"

declare decimal.simps [simp del]

text \<open>
  \<^verbatim>\<open>String(value)\<close>. An integer below \<open>2\<^sup>5\<^sup>3\<close> in absolute value prints as its
  decimal numeral; inside an array \<^verbatim>\<open>null\<close> and \<^verbatim>\<open>undefined\<close> print as nothing.
  Beyond that bound the platform prints rounded digits, and an exponent from
  \<open>10\<^sup>2\<^sup>1\<close>, which \<open>js_String\<close> does not follow: every property below that states a
  printed number carries the bound.
\<close>

fun js_String :: "jsval \<Rightarrow> string" where
  "js_String Undefined = ''undefined''"
| "js_String Null = ''null''"
| "js_String (Bool b) = (if b then ''true'' else ''false'')"
| "js_String (Num n) = (if n < 0 then ''-'' @ decimal (nat (- n)) else decimal (nat n))"
| "js_String (Str s) = s"
| "js_String (Arr xs) =
     join '','' (map (\<lambda>x. if x = Undefined \<or> x = Null then [] else js_String x) xs)"
| "js_String (Obj kvs) = ''[object Object]''"

text \<open>
  An assignment \<^verbatim>\<open>obj[key] = value\<close>: an existing entry keeps its place, a new one goes
  to the end.
\<close>

fun obj_set :: "string \<Rightarrow> jsval \<Rightarrow> (string \<times> jsval) list \<Rightarrow> (string \<times> jsval) list" where
  "obj_set k v [] = [(k, v)]"
| "obj_set k v ((k', v') # rest) =
     (if k = k' then (k, v) # rest else (k', v') # obj_set k v rest)"

text \<open>
  What the client can fail with: \<^verbatim>\<open>new Error(message)\<close>, which is the only error the
  client itself constructs; the \<^verbatim>\<open>TypeError\<close> of a property read on \<^verbatim>\<open>null\<close> or
  \<^verbatim>\<open>undefined\<close>; and whatever the transport rejects with (\<^verbatim>\<open>fetch\<close>,
  \<^verbatim>\<open>response.text()\<close>, \<^verbatim>\<open>response.json()\<close>).
\<close>

datatype error =
    Error string
  | TypeError
  | Rejected string

text \<open>
  A property read \<^verbatim>\<open>data.key\<close> for a key that no prototype defines (as
  \<^verbatim>\<open>categories\<close>): it throws on \<^verbatim>\<open>null\<close> and \<^verbatim>\<open>undefined\<close>, and is
  \<^verbatim>\<open>undefined\<close> where the value has no such entry.
\<close>

fun js_prop :: "jsval \<Rightarrow> string \<Rightarrow> error + jsval" where
  "js_prop Undefined k = Inl TypeError"
| "js_prop Null k = Inl TypeError"
| "js_prop (Obj kvs) k = Inr (case map_of kvs k of None \<Rightarrow> Undefined | Some v \<Rightarrow> v)"
| "js_prop v k = Inr Undefined"

text \<open>
  The \<^verbatim>\<open>URL\<close> object, as the client makes it: the string given to the constructor
  and the entries the client appended to \<^verbatim>\<open>url.searchParams\<close> afterwards, in order.
  What the platform reads out of that string (its path, the query it may hold) is not
  part of this state; it is modelled further down, where the properties need it. The
  request holds the \<^verbatim>\<open>URL\<close> whose \<^verbatim>\<open>toString()\<close> is fetched.
\<close>

record URL =
  address :: string
  appended :: "(string \<times> string) list"

record request =
  resource :: URL
  headers :: "(string \<times> string) list"

text \<open>
  A response: its status, and what its methods \<^verbatim>\<open>text()\<close> and \<^verbatim>\<open>json()\<close> resolve to
  or reject with. \<^verbatim>\<open>response.ok\<close> is, by the Fetch standard, a status from 200 to 299.
\<close>

record response =
  status :: nat
  body_text :: "error + string"
  body_json :: "error + jsval"

definition ok :: "response \<Rightarrow> bool" where
  "ok r = (200 \<le> status r \<and> status r \<le> 299)"

text \<open>
  The world outside the client: how the transport answers a request, and the requests
  sent so far. \<^verbatim>\<open>fetch\<close> sends one request (a GET: no method is given) and yields the
  answer; a promise that rejects is the \<^term>\<open>Inl\<close> of the result.
\<close>

record world =
  responder :: "request \<Rightarrow> error + response"
  sent :: "request list"

definition fetch :: "request \<Rightarrow> world \<Rightarrow> (error + response) \<times> world" where
  "fetch req w = (responder w req, w\<lparr>sent := sent w @ [req]\<rparr>)"

subsection \<open>Client construction\<close>

record ProcessEnv =
  NEXT_PUBLIC_JUSTCMS_TOKEN :: "string option"
  NEXT_PUBLIC_JUSTCMS_PROJECT :: "string option"

text \<open>The two variables the returned functions close over.\<close>

record client =
  token :: string
  projectId :: string

definition createJustCmsClient ::
  "ProcessEnv \<Rightarrow> string option \<Rightarrow> string option \<Rightarrow> error + client" where
  "createJustCmsClient env apiToken projectIdParam =
     (let tok = js_or apiToken (NEXT_PUBLIC_JUSTCMS_TOKEN env);
          pid = js_or projectIdParam (NEXT_PUBLIC_JUSTCMS_PROJECT env)
      in if \<not> truthy tok then Inl (Error ''JustCMS API token is required'')
         else if \<not> truthy pid then Inl (Error ''JustCMS project ID is required'')
         else Inr \<lparr>token = the tok, projectId = the pid\<rparr>)"

subsection \<open>The request executor\<close>

definition BASE_URL :: string where
  "BASE_URL = ''https://api.justcms.co/public''"

text \<open>
  The \<^verbatim>\<open>forEach\<close> over \<^verbatim>\<open>Object.entries(queryParams)\<close>: each entry whose value is
  neither \<^verbatim>\<open>undefined\<close> nor \<^verbatim>\<open>null\<close> is appended to \<^verbatim>\<open>url.searchParams\<close>.
\<close>

fun append_entries ::
  "(string \<times> jsval) list \<Rightarrow> (string \<times> string) list \<Rightarrow> (string \<times> string) list" where
  "append_entries [] params = params"
| "append_entries ((key, v) # rest) params =
     append_entries rest
       (if v \<noteq> Undefined \<and> v \<noteq> Null then params @ [(key, js_String v)] else params)"

definition get ::
  "client \<Rightarrow> string option \<Rightarrow> (string \<times> jsval) list option \<Rightarrow> world
     \<Rightarrow> (error + jsval) \<times> world" where
  "get c endpoint_arg queryParams w =
     (let endpoint = (case endpoint_arg of None \<Rightarrow> [] | Some e \<Rightarrow> e);
          url0 = \<lparr>address = BASE_URL @ ''/'' @ projectId c
                              @ (if endpoint \<noteq> [] then ''/'' @ endpoint else []),
                  appended = []\<rparr>;
          url1 = (case queryParams of
                    None \<Rightarrow> url0
                  | Some q \<Rightarrow> url0\<lparr>appended := append_entries q (appended url0)\<rparr>);
          (fetched, w') =
            fetch \<lparr>resource = url1,
                   headers = [(''Authorization'', ''Bearer '' @ token c)]\<rparr> w
      in case fetched of
           Inl e \<Rightarrow> (Inl e, w')
         | Inr resp \<Rightarrow>
             if \<not> ok resp then
               (case body_text resp of
                  Inl e \<Rightarrow> (Inl e, w')
                | Inr errorText \<Rightarrow>
                    (Inl (Error (''JustCMS API error '' @ decimal (status resp)
                                 @ '': '' @ errorText)), w'))
             else (body_json resp, w'))"

subsection \<open>The resource accessors\<close>

definition getCategories :: "client \<Rightarrow> world \<Rightarrow> (error + jsval) \<times> world" where
  "getCategories c w =
     (let (got, w') = get c None None w
      in (case got of Inl e \<Rightarrow> Inl e | Inr data \<Rightarrow> js_prop data ''categories'', w'))"

record PagesParams =
  filters :: "PageFilters option"
  start :: "int option"
  offset :: "int option"

definition getPages :: "client \<Rightarrow> PagesParams option \<Rightarrow> world \<Rightarrow> (error + jsval) \<times> world" where
  "getPages c params w =
     (let filter_slug = map_option (\<lambda>f. slug (category f)) (Option.bind params filters);
          query0 = [];
          query1 = (if truthy filter_slug
                    then obj_set ''filter.category.slug'' (Str (the filter_slug)) query0
                    else query0);
          query2 = (if Option.bind params start \<noteq> None
                    then obj_set ''start'' (Num (the (Option.bind params start))) query1
                    else query1);
          query3 = (if Option.bind params offset \<noteq> None
                    then obj_set ''offset'' (Num (the (Option.bind params offset))) query2
                    else query2)
      in get c (Some ''pages'') (Some query3) w)"

definition getPageBySlug ::
  "client \<Rightarrow> string \<Rightarrow> string option \<Rightarrow> world \<Rightarrow> (error + jsval) \<times> world" where
  "getPageBySlug c page_slug version w =
     (let query0 = [];
          query1 = (if truthy version then obj_set ''v'' (Str (the version)) query0
                    else query0)
      in get c (Some (''pages/'' @ page_slug)) (Some query1) w)"

definition getMenuById :: "client \<Rightarrow> string \<Rightarrow> world \<Rightarrow> (error + jsval) \<times> world" where
  "getMenuById c ident w = get c (Some (''menus/'' @ ident)) None w"

definition getLayoutById :: "client \<Rightarrow> string \<Rightarrow> world \<Rightarrow> (error + jsval) \<times> world" where
  "getLayoutById c ident w = get c (Some (''layouts/'' @ ident)) None w"

definition getLayoutsByIds :: "client \<Rightarrow> string list \<Rightarrow> world \<Rightarrow> (error + jsval) \<times> world" where
  "getLayoutsByIds c ids w = get c (Some (''layouts/'' @ join '';'' ids)) None w"

subsection \<open>What the platform reads out of a URL\<close>

text \<open>
  The URL parser of the platform works on the constructor string after it has dropped
  the C0 control characters and spaces at both ends and every tab and newline inside.
\<close>

definition c0_or_space :: "char \<Rightarrow> bool" where
  "c0_or_space c = ((of_char c :: nat) \<le> 32)"

definition tab_or_newline :: "char \<Rightarrow> bool" where
  "tab_or_newline c = ((of_char c :: nat) = 9 \<or> (of_char c :: nat) = 10 \<or> (of_char c :: nat) = 13)"

definition url_input :: "string \<Rightarrow> string" where
  "url_input s =
     filter (\<lambda>c. \<not> tab_or_newline c)
       (rev (dropWhile c0_or_space (rev (dropWhile c0_or_space s))))"

text \<open>
  The query of a URL string whose scheme and host have neither \<^verbatim>\<open>?\<close> nor \<^verbatim>\<open>#\<close> (as
  every string that starts with the base URL): what stands between the first \<^verbatim>\<open>?\<close>
  and the first \<^verbatim>\<open>#\<close>, and no query when no \<^verbatim>\<open>?\<close> comes before the first
  \<^verbatim>\<open>#\<close>.
\<close>

definition url_query :: "string \<Rightarrow> string option" where
  "url_query s =
     (let before_fragment = takeWhile (\<lambda>c. c \<noteq> CHR ''#'') (url_input s)
      in if CHR ''?'' \<in> set before_fragment
         then Some (tl (dropWhile (\<lambda>c. c \<noteq> CHR ''?'') before_fragment))
         else None)"

text \<open>
  The entries of a query, as \<^verbatim>\<open>url.searchParams\<close> lists them: the query is cut at
  every \<^verbatim>\<open>&\<close>, empty pieces are skipped, a piece is cut at its first \<^verbatim>\<open>=\<close> into
  name and value (the value is empty without one), and \<^verbatim>\<open>+\<close> stands for a space.
  Percent escapes are not decoded: the model is of queries without \<^verbatim>\<open>%\<close>.
\<close>

fun split_on :: "char \<Rightarrow> string \<Rightarrow> string list" where
  "split_on sep [] = [[]]"
| "split_on sep (c # cs) =
     (if c = sep then [] # split_on sep cs
      else (case split_on sep cs of [] \<Rightarrow> [[c]] | piece # pieces \<Rightarrow> (c # piece) # pieces))"

definition plus_to_space :: "string \<Rightarrow> string" where
  "plus_to_space s = map (\<lambda>c. if c = CHR ''+'' then CHR '' '' else c) s"

definition parse_entry :: "string \<Rightarrow> string \<times> string" where
  "parse_entry piece =
     (plus_to_space (takeWhile (\<lambda>c. c \<noteq> CHR ''='') piece),
      plus_to_space (drop 1 (dropWhile (\<lambda>c. c \<noteq> CHR ''='') piece)))"

definition parse_urlencoded :: "string \<Rightarrow> (string \<times> string) list" where
  "parse_urlencoded q = map parse_entry (filter (\<lambda>piece. piece \<noteq> []) (split_on (CHR ''&'') q))"

text \<open>
  The search parameters of the URL that is requested: the entries of the query that the
  constructor string holds, then the entries the client appended.
\<close>

definition searchParams :: "URL \<Rightarrow> (string \<times> string) list" where
  "searchParams u =
     (case url_query (address u) of None \<Rightarrow> [] | Some q \<Rightarrow> parse_urlencoded q)
     @ appended u"

text \<open>
  The path of an \<^verbatim>\<open>https\<close> URL string: from the first \<^verbatim>\<open>/\<close> behind the host up to
  the first \<^verbatim>\<open>?\<close> or \<^verbatim>\<open>#\<close>. The parser also escapes characters and resolves the
  segments \<^verbatim>\<open>.\<close> and \<^verbatim>\<open>..\<close>; that is not modelled, so this is the path of the
  strings that need neither (\<open>path_plain\<close> below).
\<close>

definition pathname :: "string \<Rightarrow> string" where
  "pathname s =
     takeWhile (\<lambda>c. c \<noteq> CHR ''?'' \<and> c \<noteq> CHR ''#'')
       (dropWhile (\<lambda>c. c \<noteq> CHR ''/'') (drop 8 (url_input s)))"

text \<open>
  The characters that the parser leaves as they are inside a path segment: the printable
  ASCII characters (code 33 to 126) other than the ones that end a segment or the path
  (\<^verbatim>\<open>/\<close>, backslash, \<^verbatim>\<open>?\<close>, \<^verbatim>\<open>#\<close>), the percent sign, and the ones it escapes in
  a path (double quote, \<^verbatim>\<open><\<close>, \<^verbatim>\<open>>\<close>, \<^verbatim>\<open>^\<close>, backquote, \<^verbatim>\<open>{\<close>, \<^verbatim>\<open>}\<close>).
  A string of them is one segment, which the parser keeps unless it is \<^verbatim>\<open>.\<close> or
  \<^verbatim>\<open>..\<close>.
\<close>

definition path_char :: "char \<Rightarrow> bool" where
  "path_char c =
     (let n = (of_char c :: nat)
      in 33 \<le> n \<and> n \<le> 126
         \<and> n \<notin> {34, 35, 37, 47, 60, 62, 63, 92, 94, 96, 123, 125})"

definition path_plain :: "string \<Rightarrow> bool" where
  "path_plain s = (list_all path_char s \<and> s \<noteq> ''.'' \<and> s \<noteq> ''..'')"

text \<open>
  The values whose \<^verbatim>\<open>String(value)\<close> the model prints as the platform does: strings,
  booleans, and the integers below \<open>2\<^sup>5\<^sup>3\<close> in absolute value.
\<close>

definition scalar :: "jsval \<Rightarrow> bool" where
  "scalar v = (case v of Str s \<Rightarrow> True | Bool b \<Rightarrow> True
                 | Num n \<Rightarrow> \<bar>n\<bar> < 2 ^ 53 | _ \<Rightarrow> False)"

subsection \<open>Case-insensitive comparison, as the specification words it\<close>

text \<open>
  Two code units are the same letter when they are equal or one is the lower-case form of
  the other; two strings are equal regardless of case when they have the same length and
  the same letter at every position.
\<close>

definition same_letter :: "char \<Rightarrow> char \<Rightarrow> bool" where
  "same_letter c d = (c = d \<or> lower_char c = d \<or> c = lower_char d)"

definition equal_ignoring_case :: "string \<Rightarrow> string \<Rightarrow> bool" where
  "equal_ignoring_case a b = list_all2 same_letter a b"

subsection \<open>Credential resolution, as the specification words it\<close>

text \<open>
  A value is absent when it is missing or the empty string; an absent argument falls back
  to the configuration value.
\<close>

definition absent :: "string option \<Rightarrow> bool" where
  "absent s = (s = None \<or> s = Some [])"

definition fallback :: "string option \<Rightarrow> string option \<Rightarrow> string option" where
  "fallback arg configured = (if absent arg then configured else arg)"

section \<open>Properties\<close>

subsection \<open>Helper lemmas\<close>

lemma includes_iff: "js_includes xs x \<longleftrightarrow> x \<in> set xs"
  by (induction xs) auto

lemma of_char_lower_char:
  "(of_char (lower_char c) :: nat) = (if is_upper c then of_char c + 32 else of_char c)"
  by (auto simp: lower_char_def is_upper_def Let_def)

lemma lower_char_eq_iff: "lower_char c = lower_char d \<longleftrightarrow> same_letter c d"
proof -
  have "lower_char c = lower_char d \<longleftrightarrow>
        (of_char (lower_char c) :: nat) = of_char (lower_char d)"
    by simp
  moreover have "same_letter c d \<longleftrightarrow>
        (of_char c :: nat) = of_char d \<or> (of_char (lower_char c) :: nat) = of_char d
        \<or> (of_char c :: nat) = of_char (lower_char d)"
    by (simp add: same_letter_def)
  ultimately show ?thesis
    unfolding of_char_lower_char by (auto simp: is_upper_def Let_def)
qed

lemma toLowerCase_eq_iff: "toLowerCase a = toLowerCase b \<longleftrightarrow> equal_ignoring_case a b"
  unfolding toLowerCase_def equal_ignoring_case_def
proof (induction a arbitrary: b)
  case Nil
  then show ?case by auto
next
  case (Cons x xs)
  then show ?case by (cases b) (auto simp: lower_char_eq_iff)
qed

subsection \<open>The content helpers\<close>

text \<open>
  C6. \<^verbatim>\<open>isBlockHasStyle(block, style)\<close> is true exactly when some element of
  \<^verbatim>\<open>block.styles\<close> equals \<^verbatim>\<open>style\<close> regardless of case. In particular it is true
  for the styles \<^verbatim>\<open>["Highlight"]\<close> and the style \<^verbatim>\<open>"highlight"\<close>, and false for
  the same styles and \<^verbatim>\<open>"other"\<close>.
\<close>

theorem isBlockHasStyle_case_insensitive:
  "(isBlockHasStyle block style \<longleftrightarrow> (\<exists>s \<in> set (styles block). equal_ignoring_case s style))
   \<and> isBlockHasStyle \<lparr>styles = [''Highlight'']\<rparr> ''highlight''
   \<and> \<not> isBlockHasStyle \<lparr>styles = [''Highlight'']\<rparr> ''other''"
proof (intro conjI)
  have "isBlockHasStyle block style \<longleftrightarrow>
        (\<exists>s \<in> set (styles block). toLowerCase s = toLowerCase style)"
    unfolding isBlockHasStyle_def includes_iff by (metis (no_types) image_iff list.set_map)
  then show "isBlockHasStyle block style \<longleftrightarrow>
        (\<exists>s \<in> set (styles block). equal_ignoring_case s style)"
    by (simp only: toLowerCase_eq_iff)
  show "isBlockHasStyle \<lparr>styles = [''Highlight'']\<rparr> ''highlight''"
    by code_simp
  show "\<not> isBlockHasStyle \<lparr>styles = [''Highlight'']\<rparr> ''other''"
    by code_simp
qed

theorem isBlockHasStyle_case_insensitive_witness:
  "\<exists>s \<in> set (styles \<lparr>styles = [''Bold'', ''Wide'']\<rparr>). equal_ignoring_case s ''WIDE''"
proof -
  have "isBlockHasStyle \<lparr>styles = [''Bold'', ''Wide'']\<rparr> ''WIDE''"
    by code_simp
  then show ?thesis
    using isBlockHasStyle_case_insensitive [of "\<lparr>styles = [''Bold'', ''Wide'']\<rparr>" "''WIDE''"]
    by blast
qed

text \<open>
  C7. \<^verbatim>\<open>hasCategory(page, categorySlug)\<close> is true exactly when \<^verbatim>\<open>categorySlug\<close> is
  the slug of one of \<^verbatim>\<open>page.categories\<close>, by exact string equality: a slug that
  differs in case only is not found.
\<close>

theorem hasCategory_exact_membership:
  "(hasCategory page categorySlug \<longleftrightarrow> (\<exists>c \<in> set (categories page). slug c = categorySlug))
   \<and> hasCategory \<lparr>categories = [\<lparr>slug = ''blog'', name = ''Blog''\<rparr>]\<rparr> ''blog''
   \<and> \<not> hasCategory \<lparr>categories = [\<lparr>slug = ''blog'', name = ''Blog''\<rparr>]\<rparr> ''Blog''"
  by (auto simp: hasCategory_def includes_iff)

theorem hasCategory_exact_membership_witness:
  "\<exists>c \<in> set (categories \<lparr>categories = [\<lparr>slug = ''news'', name = ''News''\<rparr>, \<lparr>slug = ''blog'', name = ''Blog''\<rparr>]\<rparr>).
      slug c = ''blog''"
proof -
  have "hasCategory \<lparr>categories = [\<lparr>slug = ''news'', name = ''News''\<rparr>, \<lparr>slug = ''blog'', name = ''Blog''\<rparr>]\<rparr> ''blog''"
    by (simp add: hasCategory_def)
  then show ?thesis
    using hasCategory_exact_membership
      [of "\<lparr>categories = [\<lparr>slug = ''news'', name = ''News''\<rparr>, \<lparr>slug = ''blog'', name = ''Blog''\<rparr>]\<rparr>" "''blog''"]
    by blast
qed

text \<open>
  C2, as the claim states it, fails: for an image with one variant
  \<^verbatim>\<open>getLargeImageVariant\<close> does not fail. The array read \<^verbatim>\<open>image.variants[1]\<close>
  is out of range, its value is \<^verbatim>\<open>undefined\<close>, and the call returns it.
\<close>

theorem getLargeImageVariant_single_variant_undefined:
  "getLargeImageVariant
     \<lparr>alt = ''logo'',
      variants = [\<lparr>url = ''https://cdn/small.png'', width = 100, height = 50,
                   filename = ''small.png''\<rparr>]\<rparr> = None"
  by (simp add: getLargeImageVariant_def js_index_def)

text \<open>
  C2, amended. For an image with at least two variants \<^verbatim>\<open>getLargeImageVariant\<close>
  returns the variant at index 1; for an image with fewer than two variants it returns
  \<^verbatim>\<open>undefined\<close>, and raises nothing.
\<close>

theorem getLargeImageVariant_second_or_undefined:
  "(2 \<le> length (variants img) \<longrightarrow> getLargeImageVariant img = Some (variants img ! 1))
   \<and> (length (variants img) < 2 \<longrightarrow> getLargeImageVariant img = None)"
  by (simp add: getLargeImageVariant_def js_index_def)

theorem getLargeImageVariant_second_or_undefined_witness:
  "getLargeImageVariant
     \<lparr>alt = ''a'',
      variants = [\<lparr>url = ''s'', width = 1, height = 1, filename = ''s.png''\<rparr>,
                  \<lparr>url = ''l'', width = 2, height = 2, filename = ''l.png''\<rparr>]\<rparr>
     = Some \<lparr>url = ''l'', width = 2, height = 2, filename = ''l.png''\<rparr>
   \<and> getLargeImageVariant \<lparr>alt = ''a'', variants = []\<rparr> = None"
  using getLargeImageVariant_second_or_undefined
      [of "\<lparr>alt = ''a'',
      variants = [\<lparr>url = ''s'', width = 1, height = 1, filename = ''s.png''\<rparr>,
                  \<lparr>url = ''l'', width = 2, height = 2, filename = ''l.png''\<rparr>]\<rparr>"]
    getLargeImageVariant_second_or_undefined [of "\<lparr>alt = ''a'', variants = []\<rparr>"]
  by simp

subsection \<open>Helper lemmas on the request executor\<close>

text \<open>
  Every call of \<^verbatim>\<open>get\<close> appends exactly one request to the requests sent
  (\<open>sent_get\<close>), so the last request sent after a call is the request of that call, and
  the result of the call is decided by the answer to it (\<open>fst_get\<close>).
\<close>

lemma truthy_iff_not_absent: "truthy s \<longleftrightarrow> \<not> absent s"
  by (cases s) (auto simp: truthy_def absent_def)

lemma js_or_eq_fallback: "js_or a b = fallback a b"
  by (simp add: js_or_def fallback_def truthy_iff_not_absent)

lemma append_entries_eq:
  "append_entries q ps =
     ps @ map (\<lambda>(k, v). (k, js_String v)) (filter (\<lambda>(k, v). v \<noteq> Undefined \<and> v \<noteq> Null) q)"
  by (induction q ps rule: append_entries.induct) auto

lemma sent_get:
  "sent (snd (get c ep q w)) = sent w @
     [\<lparr>resource = \<lparr>address = BASE_URL @ ''/'' @ projectId c @
                    (case ep of None \<Rightarrow> [] | Some e \<Rightarrow> if e \<noteq> [] then ''/'' @ e else []),
                  appended = (case q of None \<Rightarrow> [] | Some kvs \<Rightarrow> append_entries kvs [])\<rparr>,
       headers = [(''Authorization'', ''Bearer '' @ token c)]\<rparr>]"
  by (auto simp: get_def fetch_def Let_def split: option.splits sum.splits prod.splits)

lemma fst_get:
  "fst (get c ep q w) =
     (case responder w (last (sent (snd (get c ep q w)))) of
        Inl e \<Rightarrow> Inl e
      | Inr r \<Rightarrow>
          if ok r then body_json r
          else (case body_text r of
                  Inl e \<Rightarrow> Inl e
                | Inr t \<Rightarrow> Inl (Error (''JustCMS API error '' @ decimal (status r) @ '': '' @ t))))"
  unfolding sent_get
  by (auto simp: get_def fetch_def Let_def split: option.splits sum.splits prod.splits)

lemma sent_getCategories: "sent (snd (getCategories c w)) = sent (snd (get c None None w))"
  by (simp add: getCategories_def Let_def split: prod.splits)

lemma fst_getCategories:
  "fst (getCategories c w) =
     (case fst (get c None None w) of Inl e \<Rightarrow> Inl e | Inr data \<Rightarrow> js_prop data ''categories'')"
  by (simp add: getCategories_def Let_def split: prod.splits)

lemma decimal_not_Nil: "decimal n \<noteq> []"
  by (subst decimal.simps) simp

lemma decimal_digits: "c \<in> set (decimal n) \<Longrightarrow> c \<noteq> CHR '':''"
proof (induction n rule: decimal.induct)
  case (1 n)
  have digit: "char_of (48 + k) \<noteq> CHR '':''" if "k < 10" for k :: nat
  proof
    assume "char_of (48 + k) = CHR '':''"
    then have "(of_char (char_of (48 + k)) :: nat) = of_char CHR '':''"
      by (rule arg_cong)
    then have "(48 + k) mod 256 = 58"
      by simp
    with that show False
      by simp
  qed
  show ?case
  proof (cases "n < 10")
    case True
    then have "decimal n = [char_of (48 + n)]"
      by (subst decimal.simps) simp
    with True "1.prems" show ?thesis
      by (simp add: digit)
  next
    case False
    then have "decimal n = decimal (n div 10) @ [char_of (48 + n mod 10)]"
      by (subst decimal.simps) simp
    with "1.prems" have "c \<in> set (decimal (n div 10)) \<or> c = char_of (48 + n mod 10)"
      by auto
    with False "1.IH" digit [of "n mod 10"] show ?thesis
      by auto
  qed
qed

lemma digit_inj:
  fixes j k :: nat
  assumes "j < 10" "k < 10" "char_of (48 + j) = char_of (48 + k)"
  shows "j = k"
proof -
  from assms(3) have "(of_char (char_of (48 + j)) :: nat) = of_char (char_of (48 + k))"
    by (rule arg_cong)
  then have "(48 + j) mod 256 = (48 + k) mod 256"
    by simp
  with assms(1,2) show ?thesis
    by simp
qed

lemma decimal_inj: "decimal m = decimal n \<Longrightarrow> m = n"
proof (induction m arbitrary: n rule: decimal.induct)
  case (1 m)
  show ?case
  proof (cases "m < 10")
    case small_m: True
    then have m: "decimal m = [char_of (48 + m)]"
      by (subst decimal.simps) simp
    show ?thesis
    proof (cases "n < 10")
      case True
      then have "decimal n = [char_of (48 + n)]"
        by (subst decimal.simps) simp
      with m "1.prems" small_m True show ?thesis
        by (simp add: digit_inj)
    next
      case False
      then have "decimal n = decimal (n div 10) @ [char_of (48 + n mod 10)]"
        by (subst decimal.simps) simp
      with m "1.prems" decimal_not_Nil [of "n div 10"] show ?thesis
        by simp
    qed
  next
    case big_m: False
    then have m: "decimal m = decimal (m div 10) @ [char_of (48 + m mod 10)]"
      by (subst decimal.simps) simp
    show ?thesis
    proof (cases "n < 10")
      case True
      then have "decimal n = [char_of (48 + n)]"
        by (subst decimal.simps) simp
      with m "1.prems" decimal_not_Nil [of "m div 10"] show ?thesis
        by simp
    next
      case False
      then have "decimal n = decimal (n div 10) @ [char_of (48 + n mod 10)]"
        by (subst decimal.simps) simp
      with m "1.prems" have init_eq: "decimal (m div 10) = decimal (n div 10)"
        and last_eq: "char_of (48 + m mod 10) = char_of (48 + n mod 10)"
        by simp_all
      from init_eq big_m have "m div 10 = n div 10"
        by (rule "1.IH" [rotated])
      moreover from last_eq have "m mod 10 = n mod 10"
        by (intro digit_inj) simp_all
      ultimately show ?thesis
        by (metis div_mult_mod_eq)
    qed
  qed
qed

lemma split_at_colon:
  assumes "xs @ '': '' @ t = ys @ '': '' @ t'"
    and "\<forall>c \<in> set xs. c \<noteq> CHR '':''" and "\<forall>c \<in> set ys. c \<noteq> CHR '':''"
  shows "xs = ys \<and> t = t'"
proof -
  have "takeWhile (\<lambda>c. c \<noteq> CHR '':'') (xs @ '': '' @ t) = xs"
    using assms(2) by (simp add: takeWhile_append2)
  moreover have "takeWhile (\<lambda>c. c \<noteq> CHR '':'') (ys @ '': '' @ t') = ys"
    using assms(3) by (simp add: takeWhile_append2)
  ultimately have "xs = ys"
    using assms(1) by simp
  with assms(1) show ?thesis
    by simp
qed

lemma api_error_message_inj:
  assumes "''JustCMS API error '' @ decimal s @ '': '' @ t
           = ''JustCMS API error '' @ decimal s' @ '': '' @ t'"
  shows "s = s' \<and> t = t'"
proof -
  from assms have "decimal s @ '': '' @ t = decimal s' @ '': '' @ t'"
    by simp
  then have "decimal s = decimal s' \<and> t = t'"
    by (rule split_at_colon) (auto dest: decimal_digits)
  then show ?thesis
    by (simp add: decimal_inj)
qed

lemma getPages_query:
  "appended (resource (last (sent (snd (getPages c params w))))) =
     (case Option.bind params filters of
        None \<Rightarrow> []
      | Some f \<Rightarrow> if slug (category f) \<noteq> [] then [(''filter.category.slug'', slug (category f))]
                  else [])
     @ (case Option.bind params start of None \<Rightarrow> [] | Some n \<Rightarrow> [(''start'', js_String (Num n))])
     @ (case Option.bind params offset of None \<Rightarrow> [] | Some n \<Rightarrow> [(''offset'', js_String (Num n))])"
  by (simp add: getPages_def Let_def sent_get truthy_def append_entries_eq
           split: option.splits)

lemma getPageBySlug_request:
  "last (sent (snd (getPageBySlug c s version w))) =
     \<lparr>resource = \<lparr>address = BASE_URL @ ''/'' @ projectId c @ ''/pages/'' @ s,
                  appended = (if truthy version then [(''v'', the version)] else [])\<rparr>,
      headers = [(''Authorization'', ''Bearer '' @ token c)]\<rparr>"
  by (simp add: getPageBySlug_def Let_def sent_get)

lemma filtered_keys:
  "k \<in> fst ` set (map (\<lambda>(k, v). (k, f v)) (filter (\<lambda>(k, v). P v) q))
     \<longleftrightarrow> (\<exists>v. (k, v) \<in> set q \<and> P v)"
  by (induction q) auto

lemma filtered_entry:
  "(k, v) \<in> set q \<Longrightarrow> P v \<Longrightarrow>
     (k, f v) \<in> set (map (\<lambda>(k, v). (k, f v)) (filter (\<lambda>(k, v). P v) q))"
  by (induction q) auto

subsection \<open>Helper lemmas on what the platform reads out of a URL\<close>

lemma set_url_input: "set (url_input s) \<subseteq> set s"
proof -
  have drop: "set (dropWhile c0_or_space t) \<subseteq> set t" for t
    by (auto dest: set_dropWhileD)
  have "set (rev (dropWhile c0_or_space (rev (dropWhile c0_or_space s))))
          \<subseteq> set (rev (dropWhile c0_or_space s))"
    using drop [of "rev (dropWhile c0_or_space s)"] by simp
  also have "\<dots> \<subseteq> set s"
    using drop [of s] by simp
  finally show ?thesis
    unfolding url_input_def by auto
qed

lemma url_query_None: "CHR ''?'' \<notin> set s \<Longrightarrow> url_query s = None"
proof -
  assume "CHR ''?'' \<notin> set s"
  then have "CHR ''?'' \<notin> set (takeWhile (\<lambda>c. c \<noteq> CHR ''#'') (url_input s))"
    using set_url_input [of s] set_takeWhileD by fastforce
  then show ?thesis
    by (simp add: url_query_def Let_def)
qed

lemma searchParams_no_query: "CHR ''?'' \<notin> set (address u) \<Longrightarrow> searchParams u = appended u"
  by (simp add: searchParams_def url_query_None)

lemma get_searchParams:
  assumes "CHR ''?'' \<notin> set (projectId c)" and "\<forall>e. ep = Some e \<longrightarrow> CHR ''?'' \<notin> set e"
  shows "searchParams (resource (last (sent (snd (get c ep q w)))))
         = (case q of None \<Rightarrow> [] | Some kvs \<Rightarrow> append_entries kvs [])"
proof -
  have "CHR ''?'' \<notin> set (address (resource (last (sent (snd (get c ep q w))))))"
    using assms by (auto simp: sent_get BASE_URL_def split: option.splits)
  then show ?thesis
    by (simp add: searchParams_no_query) (simp add: sent_get)
qed

lemma url_input_plain:
  assumes "\<forall>c \<in> set s. \<not> c0_or_space c"
  shows "url_input s = s"
proof -
  have no_drop: "dropWhile c0_or_space t = t" if "\<forall>c \<in> set t. \<not> c0_or_space c" for t
    using that by (cases t) simp_all
  have "\<not> tab_or_newline c" if "c \<in> set s" for c
    using assms that by (auto simp: tab_or_newline_def c0_or_space_def)
  then have "filter (\<lambda>c. \<not> tab_or_newline c) s = s"
    by (simp add: filter_id_conv)
  with assms show ?thesis
    by (simp add: url_input_def no_drop)
qed

lemma path_char_facts:
  assumes "path_char c"
  shows "\<not> c0_or_space c" and "c \<noteq> CHR ''?''" and "c \<noteq> CHR ''#''" and "c \<noteq> CHR ''/''"
  using assms by (auto simp: path_char_def c0_or_space_def Let_def)

lemma pathname_plain:
  assumes "list_all path_char a" and "list_all path_char b"
  shows "pathname (BASE_URL @ ''/'' @ a @ ''/layouts/'' @ b) = ''/public/'' @ a @ ''/layouts/'' @ b"
proof -
  let ?s = "BASE_URL @ ''/'' @ a @ ''/layouts/'' @ b"
  have chars: "\<not> c0_or_space c \<and> c \<noteq> CHR ''?'' \<and> c \<noteq> CHR ''#''" if "c \<in> set a \<union> set b" for c
  proof -
    from that assms have "path_char c"
      by (auto simp: list_all_iff)
    then show ?thesis
      by (simp add: path_char_facts)
  qed
  have "\<forall>c \<in> set ?s. \<not> c0_or_space c"
    using chars by (auto simp: BASE_URL_def c0_or_space_def)
  then have "url_input ?s = ?s"
    by (rule url_input_plain)
  moreover have "dropWhile (\<lambda>c. c \<noteq> CHR ''/'') (drop 8 ?s) = ''/public/'' @ a @ ''/layouts/'' @ b"
    by (simp add: BASE_URL_def)
  moreover have "takeWhile (\<lambda>c. c \<noteq> CHR ''?'' \<and> c \<noteq> CHR ''#'') (''/public/'' @ a @ ''/layouts/'' @ b)
                 = ''/public/'' @ a @ ''/layouts/'' @ b"
    unfolding takeWhile_eq_all_conv using chars by auto
  ultimately show ?thesis
    by (simp add: pathname_def)
qed

lemma getPages_searchParams:
  assumes "CHR ''?'' \<notin> set (projectId c)"
  shows "searchParams (resource (last (sent (snd (getPages c params w)))))
         = appended (resource (last (sent (snd (getPages c params w)))))"
proof -
  have "address (resource (last (sent (snd (getPages c params w)))))
          = BASE_URL @ ''/'' @ projectId c @ ''/pages''"
    by (simp add: getPages_def Let_def sent_get)
  with assms have "CHR ''?'' \<notin> set (address (resource (last (sent (snd (getPages c params w))))))"
    by (simp add: BASE_URL_def)
  then show ?thesis
    by (rule searchParams_no_query)
qed

subsection \<open>Client construction\<close>

text \<open>
  C5. \<^verbatim>\<open>createJustCmsClient\<close> resolves the token and the project id from its
  arguments, falling back to the environment value when an argument is absent (missing or
  the empty string). If the resolved token is absent, construction fails with the error
  ``JustCMS API token is required''; otherwise, if the resolved project id is absent, it
  fails with ``JustCMS project ID is required''; with both present it succeeds and the
  client holds the two resolved values. Nothing is checked again per call: for every
  client, a request that is answered with a 2xx response yields the decoded body.
\<close>

theorem createJustCmsClient_resolves_credentials:
  "(let tok = fallback apiToken (NEXT_PUBLIC_JUSTCMS_TOKEN env);
        pid = fallback projectIdParam (NEXT_PUBLIC_JUSTCMS_PROJECT env)
    in (absent tok \<longrightarrow>
          createJustCmsClient env apiToken projectIdParam
            = Inl (Error ''JustCMS API token is required''))
     \<and> (\<not> absent tok \<and> absent pid \<longrightarrow>
          createJustCmsClient env apiToken projectIdParam
            = Inl (Error ''JustCMS project ID is required''))
     \<and> (\<forall>t p. tok = Some t \<and> t \<noteq> [] \<and> pid = Some p \<and> p \<noteq> [] \<longrightarrow>
          createJustCmsClient env apiToken projectIdParam
            = Inr \<lparr>token = t, projectId = p\<rparr>))
   \<and> (responder w (last (sent (snd (get c ep q w)))) = Inr r \<and> ok r \<longrightarrow>
        fst (get c ep q w) = body_json r)"
proof (intro conjI)
  show "let tok = fallback apiToken (NEXT_PUBLIC_JUSTCMS_TOKEN env);
            pid = fallback projectIdParam (NEXT_PUBLIC_JUSTCMS_PROJECT env)
        in (absent tok \<longrightarrow>
              createJustCmsClient env apiToken projectIdParam
                = Inl (Error ''JustCMS API token is required''))
         \<and> (\<not> absent tok \<and> absent pid \<longrightarrow>
              createJustCmsClient env apiToken projectIdParam
                = Inl (Error ''JustCMS project ID is required''))
         \<and> (\<forall>t p. tok = Some t \<and> t \<noteq> [] \<and> pid = Some p \<and> p \<noteq> [] \<longrightarrow>
              createJustCmsClient env apiToken projectIdParam
                = Inr \<lparr>token = t, projectId = p\<rparr>)"
    by (auto simp: createJustCmsClient_def Let_def js_or_eq_fallback truthy_iff_not_absent
          absent_def)
  show "responder w (last (sent (snd (get c ep q w)))) = Inr r \<and> ok r \<longrightarrow>
        fst (get c ep q w) = body_json r"
    by (subst fst_get) simp
qed

theorem createJustCmsClient_resolves_credentials_witness:
  "createJustCmsClient
     \<lparr>NEXT_PUBLIC_JUSTCMS_TOKEN = Some ''env-token'', NEXT_PUBLIC_JUSTCMS_PROJECT = None\<rparr>
     (Some '''') (Some ''site'') = Inr \<lparr>token = ''env-token'', projectId = ''site''\<rparr>
   \<and> createJustCmsClient
     \<lparr>NEXT_PUBLIC_JUSTCMS_TOKEN = Some ''env-token'', NEXT_PUBLIC_JUSTCMS_PROJECT = None\<rparr>
     None None = Inl (Error ''JustCMS project ID is required'')
   \<and> createJustCmsClient
     \<lparr>NEXT_PUBLIC_JUSTCMS_TOKEN = Some '''', NEXT_PUBLIC_JUSTCMS_PROJECT = Some ''site''\<rparr>
     None None = Inl (Error ''JustCMS API token is required'')
   \<and> fst (get \<lparr>token = ''env-token'', projectId = ''site''\<rparr> (Some ''menus/main'') None
        \<lparr>responder = (\<lambda>_. Inr \<lparr>status = 200, body_text = Inr ''{}'', body_json = Inr (Obj [])\<rparr>),
         sent = []\<rparr>) = Inr (Obj [])"
  using
    createJustCmsClient_resolves_credentials
      [of "Some ''''"
          "\<lparr>NEXT_PUBLIC_JUSTCMS_TOKEN = Some ''env-token'', NEXT_PUBLIC_JUSTCMS_PROJECT = None\<rparr>"
          "Some ''site''"
          "\<lparr>responder = (\<lambda>_. Inr \<lparr>status = 200, body_text = Inr ''{}'', body_json = Inr (Obj [])\<rparr>),
            sent = []\<rparr>"
          "\<lparr>token = ''env-token'', projectId = ''site''\<rparr>" "Some ''menus/main''" None
          "\<lparr>status = 200, body_text = Inr ''{}'', body_json = Inr (Obj [])\<rparr>"]
    createJustCmsClient_resolves_credentials
      [of None
          "\<lparr>NEXT_PUBLIC_JUSTCMS_TOKEN = Some ''env-token'', NEXT_PUBLIC_JUSTCMS_PROJECT = None\<rparr>"
          None]
    createJustCmsClient_resolves_credentials
      [of None
          "\<lparr>NEXT_PUBLIC_JUSTCMS_TOKEN = Some '''', NEXT_PUBLIC_JUSTCMS_PROJECT = Some ''site''\<rparr>"
          None]
  by (simp add: absent_def fallback_def ok_def Let_def)

subsection \<open>The request executor\<close>

text \<open>
  C3. Whenever the request of an operation (\<^verbatim>\<open>get\<close> or any of the six accessors) is
  answered with a status outside 200 to 299, the operation fails with the error whose
  message is ``JustCMS API error '', the status in decimal, ``: '' and the body text as it
  was read, whatever the body would decode to as JSON. The message determines the status
  and the body text: two such messages are equal only for the same status and the same
  text. For a 404 answer with body ``not found'', \<^verbatim>\<open>getPageBySlug("missing")\<close> fails
  with ``JustCMS API error 404: not found''.
\<close>

theorem get_non_2xx_fails_with_status_and_body:
  "(op \<in> {get c ep q, getCategories c, getPages c params, getPageBySlug c s v,
           getMenuById c i, getLayoutById c i, getLayoutsByIds c ids}
     \<and> responder w (last (sent (snd (op w)))) = Inr r \<and> \<not> ok r \<and> body_text r = Inr t
     \<longrightarrow> fst (op w) = Inl (Error (''JustCMS API error '' @ decimal (status r) @ '': '' @ t)))
   \<and> (''JustCMS API error '' @ decimal s1 @ '': '' @ t1
        = ''JustCMS API error '' @ decimal s2 @ '': '' @ t2 \<longrightarrow> s1 = s2 \<and> t1 = t2)
   \<and> fst (getPageBySlug c ''missing'' None
        \<lparr>responder = (\<lambda>_. Inr \<lparr>status = 404, body_text = Inr ''not found'', body_json = j\<rparr>),
         sent = []\<rparr>) = Inl (Error ''JustCMS API error 404: not found'')"
proof (intro conjI impI)
  assume a: "op \<in> {get c ep q, getCategories c, getPages c params, getPageBySlug c s v,
           getMenuById c i, getLayoutById c i, getLayoutsByIds c ids}
     \<and> responder w (last (sent (snd (op w)))) = Inr r \<and> \<not> ok r \<and> body_text r = Inr t"
  have get_case: "fst (get c e' q' w)
      = Inl (Error (''JustCMS API error '' @ decimal (status r) @ '': '' @ t))"
    if "responder w (last (sent (snd (get c e' q' w)))) = Inr r" for e' q'
    using that a by (subst fst_get) simp
  from a consider "op = get c ep q" | "op = getCategories c" | "op = getPages c params"
    | "op = getPageBySlug c s v" | "op = getMenuById c i" | "op = getLayoutById c i"
    | "op = getLayoutsByIds c ids"
    by auto
  then show "fst (op w) = Inl (Error (''JustCMS API error '' @ decimal (status r) @ '': '' @ t))"
  proof cases
    case 1
    with a show ?thesis by (simp add: get_case)
  next
    case 2
    with a show ?thesis
      by (simp add: fst_getCategories sent_getCategories get_case)
  next
    case 3
    with a show ?thesis by (simp add: getPages_def Let_def get_case)
  next
    case 4
    with a show ?thesis by (simp add: getPageBySlug_def Let_def get_case)
  next
    case 5
    with a show ?thesis by (simp add: getMenuById_def get_case)
  next
    case 6
    with a show ?thesis by (simp add: getLayoutById_def get_case)
  next
    case 7
    with a show ?thesis by (simp add: getLayoutsByIds_def get_case)
  qed
next
  assume "''JustCMS API error '' @ decimal s1 @ '': '' @ t1
        = ''JustCMS API error '' @ decimal s2 @ '': '' @ t2"
  then show "s1 = s2" and "t1 = t2"
    using api_error_message_inj by blast+
next
  have "decimal 404 = ''404''"
    by code_simp
  then show "fst (getPageBySlug c ''missing'' None
        \<lparr>responder = (\<lambda>_. Inr \<lparr>status = 404, body_text = Inr ''not found'', body_json = j\<rparr>),
         sent = []\<rparr>) = Inl (Error ''JustCMS API error 404: not found'')"
    by (simp add: getPageBySlug_def Let_def fst_get ok_def)
qed

theorem get_non_2xx_fails_with_status_and_body_witness:
  "fst (getMenuById \<lparr>token = ''t'', projectId = ''p''\<rparr> ''main''
        \<lparr>responder = (\<lambda>_. Inr \<lparr>status = 500, body_text = Inr ''{error:boom}'',
                                  body_json = Inr (Obj [(''error'', Str ''boom'')])\<rparr>),
         sent = []\<rparr>)
     = Inl (Error (''JustCMS API error '' @ decimal 500 @ '': {error:boom}''))"
  using get_non_2xx_fails_with_status_and_body
      [of "getMenuById \<lparr>token = ''t'', projectId = ''p''\<rparr> ''main''"
          "\<lparr>token = ''t'', projectId = ''p''\<rparr>" _ _ _ _ _ "''main''" _
          "\<lparr>responder = (\<lambda>_. Inr \<lparr>status = 500, body_text = Inr ''{error:boom}'',
                                  body_json = Inr (Obj [(''error'', Str ''boom'')])\<rparr>),
         sent = []\<rparr>"
          "\<lparr>status = 500, body_text = Inr ''{error:boom}'',
                                  body_json = Inr (Obj [(''error'', Str ''boom'')])\<rparr>"
          "''{error:boom}''"]
  by (simp add: ok_def)

text \<open>
  C4, as the claim states it, fails: \<^verbatim>\<open>get\<close> appends nothing for a key whose value is
  \<^verbatim>\<open>undefined\<close>, but it escapes nothing either, so an endpoint that brings a query of
  its own puts its keys in the URL. For the endpoint \<^verbatim>\<open>pages?a=1\<close> and the mapping
  \<^verbatim>\<open>{a: undefined}\<close> the URL requested has the key \<^verbatim>\<open>a\<close>.
\<close>

theorem get_endpoint_query_keeps_undefined_key:
  "''a'' \<in> fst ` set (searchParams (resource (last (sent (snd
     (get \<lparr>token = ''t'', projectId = ''p''\<rparr> (Some ''pages?a=1'') (Some [(''a'', Undefined)])
        \<lparr>responder = (\<lambda>_. Inl (Rejected ''offline'')), sent = []\<rparr>))))))"
proof -
  have "url_query (BASE_URL @ ''/p/pages?a=1'') = Some ''a=1''"
    by code_simp
  moreover have "parse_urlencoded ''a=1'' = [(''a'', ''1'')]"
    by code_simp
  ultimately show ?thesis
    by (simp add: sent_get searchParams_def)
qed

text \<open>
  C4, amended. When neither the project id nor the endpoint holds a \<^verbatim>\<open>?\<close>, then for
  every query mapping (an object: its keys are distinct) passed to \<^verbatim>\<open>get\<close>, a key
  whose value is \<^verbatim>\<open>undefined\<close> or \<^verbatim>\<open>null\<close>, and a key the mapping does not have,
  is no key of the search parameters of the URL requested; a key with any other value is
  one, and for a string, a boolean or an integer below \<open>2\<^sup>5\<^sup>3\<close> in absolute value its
  entry has \<^verbatim>\<open>String(value)\<close>: the number 0 gives ``0'' and the empty string gives the
  empty string.
\<close>

theorem get_query_omits_undefined_and_null:
  assumes "distinct (map fst q)"
    and "CHR ''?'' \<notin> set (projectId c)"
    and "\<forall>e. ep = Some e \<longrightarrow> CHR ''?'' \<notin> set e"
  shows "let sp = searchParams (resource (last (sent (snd (get c ep (Some q) w)))))
         in (\<forall>v. map_of q k = Some v \<and> (v = Undefined \<or> v = Null) \<longrightarrow> k \<notin> fst ` set sp)
          \<and> (map_of q k = None \<longrightarrow> k \<notin> fst ` set sp)
          \<and> (\<forall>v. map_of q k = Some v \<and> v \<noteq> Undefined \<and> v \<noteq> Null \<longrightarrow> k \<in> fst ` set sp)
          \<and> (\<forall>v. map_of q k = Some v \<and> scalar v \<longrightarrow> (k, js_String v) \<in> set sp)
          \<and> (map_of q k = Some (Num 0) \<longrightarrow> (k, ''0'') \<in> set sp)
          \<and> (map_of q k = Some (Str []) \<longrightarrow> (k, []) \<in> set sp)"
proof -
  define sp where "sp = searchParams (resource (last (sent (snd (get c ep (Some q) w)))))"
  have sp: "sp = map (\<lambda>(k, v). (k, js_String v))
                   (filter (\<lambda>(k, v). v \<noteq> Undefined \<and> v \<noteq> Null) q)"
    unfolding sp_def using assms(2,3) by (simp add: get_searchParams append_entries_eq)
  have key: "k \<in> fst ` set sp \<longleftrightarrow> (\<exists>v. (k, v) \<in> set q \<and> v \<noteq> Undefined \<and> v \<noteq> Null)"
    unfolding sp by (rule filtered_keys)
  have entry: "map_of q k = Some v \<longleftrightarrow> (k, v) \<in> set q" for v
    using assms(1) by (rule map_of_eq_Some_iff)
  have only: "v' = v" if "map_of q k = Some v" "(k, v') \<in> set q" for v v'
    using that entry [of v'] by simp
  have zero: "js_String (Num 0) = ''0''"
    by code_simp
  have 1: "k \<notin> fst ` set sp" if "map_of q k = Some v" "v = Undefined \<or> v = Null" for v
    unfolding key using only [OF that(1)] that(2) by blast
  have 2: "k \<notin> fst ` set sp" if "map_of q k = None"
    unfolding key using entry that by simp
  have 3: "(k, js_String v) \<in> set sp"
    if "map_of q k = Some v" "v \<noteq> Undefined" "v \<noteq> Null" for v
    unfolding sp using that entry [of v] by (intro filtered_entry) simp_all
  have present: "k \<in> fst ` set sp" if "map_of q k = Some v" "v \<noteq> Undefined" "v \<noteq> Null" for v
    using 3 [OF that] by (rule image_eqI [rotated]) simp
  have printed: "(k, js_String v) \<in> set sp" if "map_of q k = Some v" "scalar v" for v
    using that 3 [of v] by (cases v) (simp_all add: scalar_def)
  have 4: "(k, ''0'') \<in> set sp" if "map_of q k = Some (Num 0)"
    using 3 [OF that] zero by simp
  have 5: "(k, []) \<in> set sp" if "map_of q k = Some (Str [])"
    using 3 [OF that] by simp
  from 1 2 present printed 4 5 show ?thesis
    unfolding sp_def Let_def by blast
qed

theorem get_query_omits_undefined_and_null_witness:
  "distinct (map fst [(''a'', Undefined), (''b'', Num 0), (''c'', Null), (''d'', Str [])])
   \<and> CHR ''?'' \<notin> set ''p'' \<and> CHR ''?'' \<notin> set ''pages''
   \<and> ''a'' \<notin> fst ` set (searchParams (resource (last (sent (snd
        (get \<lparr>token = ''t'', projectId = ''p''\<rparr> (Some ''pages'')
           (Some [(''a'', Undefined), (''b'', Num 0), (''c'', Null), (''d'', Str [])])
           \<lparr>responder = (\<lambda>_. Inl (Rejected ''offline'')), sent = []\<rparr>))))))
   \<and> (''b'', ''0'') \<in> set (searchParams (resource (last (sent (snd
        (get \<lparr>token = ''t'', projectId = ''p''\<rparr> (Some ''pages'')
           (Some [(''a'', Undefined), (''b'', Num 0), (''c'', Null), (''d'', Str [])])
           \<lparr>responder = (\<lambda>_. Inl (Rejected ''offline'')), sent = []\<rparr>))))))
   \<and> (''d'', []) \<in> set (searchParams (resource (last (sent (snd
        (get \<lparr>token = ''t'', projectId = ''p''\<rparr> (Some ''pages'')
           (Some [(''a'', Undefined), (''b'', Num 0), (''c'', Null), (''d'', Str [])])
           \<lparr>responder = (\<lambda>_. Inl (Rejected ''offline'')), sent = []\<rparr>))))))"
proof -
  let ?q = "[(''a'', Undefined), (''b'', Num 0), (''c'', Null), (''d'', Str [])]"
  let ?c = "\<lparr>token = ''t'', projectId = ''p''\<rparr>"
  let ?w = "\<lparr>responder = (\<lambda>_. Inl (Rejected ''offline'')), sent = []\<rparr>"
  have d: "distinct (map fst ?q)"
    by simp
  have p: "CHR ''?'' \<notin> set (projectId ?c)"
    by simp
  have e: "\<forall>e. Some ''pages'' = Some e \<longrightarrow> CHR ''?'' \<notin> set e"
    by simp
  show ?thesis
    using d
      get_query_omits_undefined_and_null [OF d p e, of ?w "''a''"]
      get_query_omits_undefined_and_null [OF d p e, of ?w "''b''"]
      get_query_omits_undefined_and_null [OF d p e, of ?w "''d''"]
    by (simp add: Let_def)
qed

subsection \<open>The resource accessors\<close>

text \<open>
  C1, as the claim states it, fails: a category-slug filter that is defined and is the
  empty string yields no \<^verbatim>\<open>filter.category.slug\<close> key, because \<^verbatim>\<open>getPages\<close> tests
  the slug for truth and the empty string is falsy.
\<close>

theorem getPages_empty_category_slug_dropped:
  "''filter.category.slug'' \<notin> fst ` set (searchParams (resource (last (sent (snd
     (getPages \<lparr>token = ''t'', projectId = ''p''\<rparr>
        (Some \<lparr>filters = Some \<lparr>category = \<lparr>slug = []\<rparr>\<rparr>, start = None, offset = None\<rparr>)
        \<lparr>responder = (\<lambda>_. Inl (Rejected ''offline'')), sent = []\<rparr>))))))"
  by (simp add: getPages_searchParams getPages_query)

text \<open>
  C1, amended. For a client whose project id holds no \<^verbatim>\<open>?\<close> (so that the URL has no
  query but the one \<^verbatim>\<open>getPages\<close> makes): in the query of the request that
  \<^verbatim>\<open>getPages\<close> sends, the key \<^verbatim>\<open>filter.category.slug\<close> appears exactly when a
  category-slug filter is given and is not the empty string, and then with the slug as
  value; \<^verbatim>\<open>start\<close> and \<^verbatim>\<open>offset\<close> appear exactly when their value is defined, zero
  included, and an integer below \<open>2\<^sup>5\<^sup>3\<close> in absolute value is printed as their value.
  \<^verbatim>\<open>getPages({start: 0, offset: 10})\<close> sends the query \<^verbatim>\<open>start=0\<close>,
  \<^verbatim>\<open>offset=10\<close>.
\<close>

theorem getPages_query_keys:
  "CHR ''?'' \<notin> set (projectId c) \<longrightarrow>
   (let sp = searchParams (resource (last (sent (snd (getPages c params w)))))
    in (''filter.category.slug'' \<in> fst ` set sp \<longleftrightarrow>
          (\<exists>p f. params = Some p \<and> filters p = Some f \<and> slug (category f) \<noteq> []))
     \<and> (\<forall>p f. params = Some p \<and> filters p = Some f \<and> slug (category f) \<noteq> [] \<longrightarrow>
          (''filter.category.slug'', slug (category f)) \<in> set sp)
     \<and> (''start'' \<in> fst ` set sp \<longleftrightarrow> (\<exists>p n. params = Some p \<and> start p = Some n))
     \<and> (\<forall>p n. params = Some p \<and> start p = Some n \<and> \<bar>n\<bar> < 2 ^ 53 \<longrightarrow>
          (''start'', js_String (Num n)) \<in> set sp)
     \<and> (''offset'' \<in> fst ` set sp \<longleftrightarrow> (\<exists>p n. params = Some p \<and> offset p = Some n))
     \<and> (\<forall>p n. params = Some p \<and> offset p = Some n \<and> \<bar>n\<bar> < 2 ^ 53 \<longrightarrow>
          (''offset'', js_String (Num n)) \<in> set sp))
   \<and> searchParams (resource (last (sent (snd
         (getPages c (Some \<lparr>filters = None, start = Some 0, offset = Some 10\<rparr>) w)))))
       = [(''start'', ''0''), (''offset'', ''10'')]"
proof (intro conjI impI)
  assume pid: "CHR ''?'' \<notin> set (projectId c)"
  show "let sp = searchParams (resource (last (sent (snd (getPages c params w)))))
    in (''filter.category.slug'' \<in> fst ` set sp \<longleftrightarrow>
          (\<exists>p f. params = Some p \<and> filters p = Some f \<and> slug (category f) \<noteq> []))
     \<and> (\<forall>p f. params = Some p \<and> filters p = Some f \<and> slug (category f) \<noteq> [] \<longrightarrow>
          (''filter.category.slug'', slug (category f)) \<in> set sp)
     \<and> (''start'' \<in> fst ` set sp \<longleftrightarrow> (\<exists>p n. params = Some p \<and> start p = Some n))
     \<and> (\<forall>p n. params = Some p \<and> start p = Some n \<and> \<bar>n\<bar> < 2 ^ 53 \<longrightarrow>
          (''start'', js_String (Num n)) \<in> set sp)
     \<and> (''offset'' \<in> fst ` set sp \<longleftrightarrow> (\<exists>p n. params = Some p \<and> offset p = Some n))
     \<and> (\<forall>p n. params = Some p \<and> offset p = Some n \<and> \<bar>n\<bar> < 2 ^ 53 \<longrightarrow>
          (''offset'', js_String (Num n)) \<in> set sp)"
  proof (cases params)
    case None
    then show ?thesis
      by (simp add: getPages_searchParams [OF pid] getPages_query Let_def)
  next
    case (Some p)
    then show ?thesis
      by (cases "filters p"; cases "start p"; cases "offset p")
        (auto simp: getPages_searchParams [OF pid] getPages_query Let_def)
  qed
  have "js_String (Num 0) = ''0''" and "js_String (Num 10) = ''10''"
    by code_simp+
  then show "searchParams (resource (last (sent (snd
         (getPages c (Some \<lparr>filters = None, start = Some 0, offset = Some 10\<rparr>) w)))))
       = [(''start'', ''0''), (''offset'', ''10'')]"
    by (simp add: getPages_searchParams [OF pid] getPages_query del: js_String.simps)
qed

theorem getPages_query_keys_witness:
  "CHR ''?'' \<notin> set ''p''
   \<and> (''filter.category.slug'', ''blog'') \<in> set (searchParams (resource (last (sent (snd
     (getPages \<lparr>token = ''t'', projectId = ''p''\<rparr>
        (Some \<lparr>filters = Some \<lparr>category = \<lparr>slug = ''blog''\<rparr>\<rparr>, start = Some 0,
               offset = None\<rparr>)
        \<lparr>responder = (\<lambda>_. Inl (Rejected ''offline'')), sent = []\<rparr>))))))
   \<and> (''start'', js_String (Num 0)) \<in> set (searchParams (resource (last (sent (snd
     (getPages \<lparr>token = ''t'', projectId = ''p''\<rparr>
        (Some \<lparr>filters = Some \<lparr>category = \<lparr>slug = ''blog''\<rparr>\<rparr>, start = Some 0,
               offset = None\<rparr>)
        \<lparr>responder = (\<lambda>_. Inl (Rejected ''offline'')), sent = []\<rparr>))))))
   \<and> ''offset'' \<notin> fst ` set (searchParams (resource (last (sent (snd
     (getPages \<lparr>token = ''t'', projectId = ''p''\<rparr>
        (Some \<lparr>filters = Some \<lparr>category = \<lparr>slug = ''blog''\<rparr>\<rparr>, start = Some 0,
               offset = None\<rparr>)
        \<lparr>responder = (\<lambda>_. Inl (Rejected ''offline'')), sent = []\<rparr>))))))"
  using getPages_query_keys
      [of "\<lparr>token = ''t'', projectId = ''p''\<rparr>"
          "Some \<lparr>filters = Some \<lparr>category = \<lparr>slug = ''blog''\<rparr>\<rparr>, start = Some 0,
                 offset = None\<rparr>"
          "\<lparr>responder = (\<lambda>_. Inl (Rejected ''offline'')), sent = []\<rparr>"]
  by (simp add: Let_def del: js_String.simps)

text \<open>
  C8. \<^verbatim>\<open>getCategories\<close> sends one request, to the root endpoint: the URL made from
  the base URL and the project id, with no further path segment and no query parameter
  appended. When the answer is a 2xx
  response whose body decodes to an object with a \<^verbatim>\<open>categories\<close> array, the result is
  that array, unchanged.
\<close>

theorem getCategories_unwraps_envelope:
  "sent (snd (getCategories c w)) = sent w @
     [\<lparr>resource = \<lparr>address = BASE_URL @ ''/'' @ projectId c, appended = []\<rparr>,
       headers = [(''Authorization'', ''Bearer '' @ token c)]\<rparr>]
   \<and> (responder w (last (sent (snd (getCategories c w)))) = Inr r \<and> ok r
        \<and> body_json r = Inr (Obj kvs) \<and> map_of kvs ''categories'' = Some (Arr cs)
       \<longrightarrow> fst (getCategories c w) = Inr (Arr cs))"
proof (intro conjI impI)
  show "sent (snd (getCategories c w)) = sent w @
     [\<lparr>resource = \<lparr>address = BASE_URL @ ''/'' @ projectId c, appended = []\<rparr>,
       headers = [(''Authorization'', ''Bearer '' @ token c)]\<rparr>]"
    by (simp add: sent_getCategories sent_get)
next
  assume a: "responder w (last (sent (snd (getCategories c w)))) = Inr r \<and> ok r
        \<and> body_json r = Inr (Obj kvs) \<and> map_of kvs ''categories'' = Some (Arr cs)"
  then have "fst (get c None None w) = Inr (Obj kvs)"
    by (subst fst_get) (simp add: sent_getCategories)
  with a show "fst (getCategories c w) = Inr (Arr cs)"
    by (simp add: fst_getCategories)
qed

theorem getCategories_unwraps_envelope_witness:
  "fst (getCategories \<lparr>token = ''t'', projectId = ''p''\<rparr>
     \<lparr>responder = (\<lambda>_. Inr \<lparr>status = 200, body_text = Inr [],
          body_json = Inr (Obj [(''categories'',
            Arr [Obj [(''name'', Str ''Blog''), (''slug'', Str ''blog'')]])])\<rparr>),
      sent = []\<rparr>)
   = Inr (Arr [Obj [(''name'', Str ''Blog''), (''slug'', Str ''blog'')]])"
  using getCategories_unwraps_envelope
      [of "\<lparr>token = ''t'', projectId = ''p''\<rparr>"
          "\<lparr>responder = (\<lambda>_. Inr \<lparr>status = 200, body_text = Inr [],
             body_json = Inr (Obj [(''categories'',
               Arr [Obj [(''name'', Str ''Blog''), (''slug'', Str ''blog'')]])])\<rparr>),
            sent = []\<rparr>"
          "\<lparr>status = 200, body_text = Inr [],
             body_json = Inr (Obj [(''categories'',
               Arr [Obj [(''name'', Str ''Blog''), (''slug'', Str ''blog'')]])])\<rparr>"
          "[(''categories'', Arr [Obj [(''name'', Str ''Blog''), (''slug'', Str ''blog'')]])]"
          "[Obj [(''name'', Str ''Blog''), (''slug'', Str ''blog'')]]"]
  by (simp add: ok_def)

text \<open>
  C9, as the claim states it, fails: the ids are joined and handed to the URL constructor
  unescaped, so an id that holds a \<^verbatim>\<open>?\<close> ends the path there. For the ids
  \<^verbatim>\<open>["a?b","c"]\<close> the path requested is \<^verbatim>\<open>/public/p/layouts/a\<close>, not
  \<^verbatim>\<open>/public/p/layouts/a?b;c\<close>.
\<close>

theorem getLayoutsByIds_query_mark_cuts_path:
  "pathname (address (resource (last (sent (snd
     (getLayoutsByIds \<lparr>token = ''t'', projectId = ''p''\<rparr> [''a?b'', ''c'']
        \<lparr>responder = (\<lambda>_. Inl (Rejected ''offline'')), sent = []\<rparr>))))))
     = ''/public/p/layouts/a''
   \<and> ''/public/p/layouts/'' @ join '';'' [''a?b'', ''c''] = ''/public/p/layouts/a?b;c''"
  by (simp add: getLayoutsByIds_def sent_get pathname_def url_input_def BASE_URL_def
        c0_or_space_def tab_or_newline_def)

text \<open>
  C9, amended. For every list of ids \<^verbatim>\<open>getLayoutsByIds\<close> sends one request and hands
  the URL constructor the base URL, the project id and \<^verbatim>\<open>/layouts/\<close> followed by the
  ids joined with \<^verbatim>\<open>;\<close> (the first id, then each further id behind one semicolon),
  with nothing escaped: an id that holds a semicolon gives the same request as the ids it
  splits into. When the project id and the joined ids are each a plain path segment
  (characters the parser leaves alone, and not \<^verbatim>\<open>.\<close> or \<^verbatim>\<open>..\<close>), the path requested
  is \<^verbatim>\<open>/public/{projectId}/layouts/\<close> followed by the joined ids, with no query; for
  the ids \<^verbatim>\<open>["a","b"]\<close> it ends in \<^verbatim>\<open>layouts/a;b\<close>.
\<close>

theorem getLayoutsByIds_joins_ids:
  "sent (snd (getLayoutsByIds c ids w)) = sent w @
     [\<lparr>resource = \<lparr>address = BASE_URL @ ''/'' @ projectId c @ ''/layouts/'' @ join '';'' ids,
                   appended = []\<rparr>,
       headers = [(''Authorization'', ''Bearer '' @ token c)]\<rparr>]
   \<and> join '';'' [] = []
   \<and> join '';'' (x # xs) = x @ concat (map (\<lambda>y. '';'' @ y) xs)
   \<and> (path_plain (projectId c) \<and> path_plain (join '';'' ids) \<longrightarrow>
        pathname (address (resource (last (sent (snd (getLayoutsByIds c ids w))))))
          = ''/public/'' @ projectId c @ ''/layouts/'' @ join '';'' ids
        \<and> searchParams (resource (last (sent (snd (getLayoutsByIds c ids w))))) = [])
   \<and> (path_plain (projectId c) \<longrightarrow>
        pathname (address (resource (last (sent (snd (getLayoutsByIds c [''a'', ''b''] w))))))
          = ''/public/'' @ projectId c @ ''/layouts/a;b'')
   \<and> getLayoutsByIds c [''a;b'', ''c''] w = getLayoutsByIds c [''a'', ''b'', ''c''] w"
proof (intro conjI impI)
  show "join '';'' (x # xs) = x @ concat (map (\<lambda>y. '';'' @ y) xs)"
    by (induction xs arbitrary: x) simp_all
next
  assume plain: "path_plain (projectId c) \<and> path_plain (join '';'' ids)"
  have req: "address (resource (last (sent (snd (getLayoutsByIds c ids w)))))
          = BASE_URL @ ''/'' @ projectId c @ ''/layouts/'' @ join '';'' ids"
    by (simp add: getLayoutsByIds_def sent_get)
  from plain show "pathname (address (resource (last (sent (snd (getLayoutsByIds c ids w))))))
          = ''/public/'' @ projectId c @ ''/layouts/'' @ join '';'' ids"
    unfolding req by (intro pathname_plain) (simp_all add: path_plain_def)
  have "CHR ''?'' \<notin> set (projectId c)" and "CHR ''?'' \<notin> set (join '';'' ids)"
    using plain path_char_facts(2) by (auto simp: path_plain_def list_all_iff)
  then show "searchParams (resource (last (sent (snd (getLayoutsByIds c ids w))))) = []"
    by (simp add: getLayoutsByIds_def get_searchParams)
next
  assume pid: "path_plain (projectId c)"
  have ab: "list_all path_char ''a;b''"
    by code_simp
  have "address (resource (last (sent (snd (getLayoutsByIds c [''a'', ''b''] w)))))
          = BASE_URL @ ''/'' @ projectId c @ ''/layouts/'' @ ''a;b''"
    by (simp add: getLayoutsByIds_def sent_get)
  moreover have "pathname (BASE_URL @ ''/'' @ projectId c @ ''/layouts/'' @ ''a;b'')
          = ''/public/'' @ projectId c @ ''/layouts/'' @ ''a;b''"
    using pid ab by (intro pathname_plain) (simp_all add: path_plain_def)
  ultimately show "pathname (address (resource (last (sent (snd
        (getLayoutsByIds c [''a'', ''b''] w))))))
          = ''/public/'' @ projectId c @ ''/layouts/a;b''"
    by simp
qed (simp_all add: getLayoutsByIds_def sent_get)

theorem getLayoutsByIds_joins_ids_witness:
  "path_plain ''site'' \<and> path_plain (join '';'' [''footer'', ''header''])
   \<and> pathname (address (resource (last (sent (snd
        (getLayoutsByIds \<lparr>token = ''t'', projectId = ''site''\<rparr> [''footer'', ''header'']
           \<lparr>responder = (\<lambda>_. Inl (Rejected ''offline'')), sent = []\<rparr>))))))
       = ''/public/site/layouts/footer;header''"
proof -
  let ?c = "\<lparr>token = ''t'', projectId = ''site''\<rparr>"
  let ?ids = "[''footer'', ''header'']"
  let ?w = "\<lparr>responder = (\<lambda>_. Inl (Rejected ''offline'')), sent = []\<rparr>"
  have plain: "path_plain ''site''" "path_plain (join '';'' ?ids)"
    by code_simp+
  then have "path_plain (projectId ?c) \<and> path_plain (join '';'' ?ids)"
    by simp
  with getLayoutsByIds_joins_ids [where c = ?c and ids = ?ids and w = ?w and x = "[]" and xs = "[]"]
  have "pathname (address (resource (last (sent (snd (getLayoutsByIds ?c ?ids ?w))))))
          = ''/public/'' @ projectId ?c @ ''/layouts/'' @ join '';'' ?ids"
    by blast
  with plain show ?thesis
    by simp
qed

text \<open>
  C10, as the claim states it, fails: the slug goes into the URL string unescaped, so a
  slug that brings a query of its own puts its keys in the URL. For the slug
  \<^verbatim>\<open>x?v=1\<close> and no version the URL requested has a \<^verbatim>\<open>v\<close> parameter.
\<close>

theorem getPageBySlug_slug_with_query_has_v:
  "''v'' \<in> fst ` set (searchParams (resource (last (sent (snd
     (getPageBySlug \<lparr>token = ''t'', projectId = ''p''\<rparr> ''x?v=1'' None
        \<lparr>responder = (\<lambda>_. Inl (Rejected ''offline'')), sent = []\<rparr>))))))"
proof -
  have "url_query (BASE_URL @ ''/p/pages/x?v=1'') = Some ''v=1''"
    by code_simp
  moreover have "parse_urlencoded ''v=1'' = [(''v'', ''1'')]"
    by code_simp
  ultimately show ?thesis
    by (simp add: getPageBySlug_request searchParams_def truthy_def)
qed

text \<open>
  C10, amended. For every slug, \<^verbatim>\<open>getPageBySlug(slug, version)\<close> hands the URL
  constructor the base URL, the project id and \<^verbatim>\<open>/pages/\<close> followed by the slug, and
  appends \<^verbatim>\<open>v\<close> with the version exactly when the version is neither
  \<^verbatim>\<open>undefined\<close> nor the empty string. When neither the project id nor the slug holds
  a \<^verbatim>\<open>?\<close>, the URL requested has no query parameter at all for an undefined or empty
  version, so no \<^verbatim>\<open>v\<close>, and for any other version its query is \<^verbatim>\<open>v\<close> with that
  version.
\<close>

theorem getPageBySlug_omits_falsy_version:
  "appended (resource (last (sent (snd (getPageBySlug c s version w)))))
     = (if version = None \<or> version = Some [] then [] else [(''v'', the version)])
   \<and> address (resource (last (sent (snd (getPageBySlug c s version w)))))
       = BASE_URL @ ''/'' @ projectId c @ ''/pages/'' @ s
   \<and> (CHR ''?'' \<notin> set (projectId c) \<and> CHR ''?'' \<notin> set s \<longrightarrow>
        (let sp = searchParams (resource (last (sent (snd (getPageBySlug c s version w)))))
         in (version = None \<or> version = Some [] \<longrightarrow> sp = [])
          \<and> (\<forall>t. version = Some t \<and> t \<noteq> [] \<longrightarrow> sp = [(''v'', t)])))"
proof (intro conjI impI)
  assume "CHR ''?'' \<notin> set (projectId c) \<and> CHR ''?'' \<notin> set s"
  then have "CHR ''?'' \<notin> set (address (resource (last (sent (snd (getPageBySlug c s version w))))))"
    by (simp add: getPageBySlug_request BASE_URL_def)
  then have "searchParams (resource (last (sent (snd (getPageBySlug c s version w)))))
        = appended (resource (last (sent (snd (getPageBySlug c s version w)))))"
    by (rule searchParams_no_query)
  then show "let sp = searchParams (resource (last (sent (snd (getPageBySlug c s version w)))))
         in (version = None \<or> version = Some [] \<longrightarrow> sp = [])
          \<and> (\<forall>t. version = Some t \<and> t \<noteq> [] \<longrightarrow> sp = [(''v'', t)])"
    by (auto simp: getPageBySlug_request truthy_def Let_def)
qed (auto simp: getPageBySlug_request truthy_def split: option.splits)

theorem getPageBySlug_omits_falsy_version_witness:
  "searchParams (resource (last (sent (snd
     (getPageBySlug \<lparr>token = ''t'', projectId = ''p''\<rparr> ''about'' (Some [])
        \<lparr>responder = (\<lambda>_. Inl (Rejected ''offline'')), sent = []\<rparr>))))) = []
   \<and> searchParams (resource (last (sent (snd
     (getPageBySlug \<lparr>token = ''t'', projectId = ''p''\<rparr> ''about'' (Some ''draft'')
        \<lparr>responder = (\<lambda>_. Inl (Rejected ''offline'')), sent = []\<rparr>))))) = [(''v'', ''draft'')]"
  using getPageBySlug_omits_falsy_version
      [of "\<lparr>token = ''t'', projectId = ''p''\<rparr>" "''about''" "Some []"
          "\<lparr>responder = (\<lambda>_. Inl (Rejected ''offline'')), sent = []\<rparr>"]
    getPageBySlug_omits_falsy_version
      [of "\<lparr>token = ''t'', projectId = ''p''\<rparr>" "''about''" "Some ''draft''"
          "\<lparr>responder = (\<lambda>_. Inl (Rejected ''offline'')), sent = []\<rparr>"]
  by (simp add: Let_def)

end
